theory Spec2Isabelle
  imports Complex_Main "HOL-Library.Sublist" "HOL-Library.AList" "HOL-Library.Word"
begin

section \<open>Python values, exceptions and the observable world\<close>

text \<open>
  The orchestration layer of GhidraInsight lives in three modules of
  \<^verbatim>\<open>python-mcp/ghidrainsight/core\<close>: \<^verbatim>\<open>error_recovery.py\<close>,
  \<^verbatim>\<open>multi_region.py\<close> and \<^verbatim>\<open>distributed_tasks.py\<close>. The operations they wrap
  return arbitrary Python objects; the fragment of Python values the code itself
  builds or inspects is given by \<open>pyval\<close>. A raised exception is the name of its class
  and the text \<^verbatim>\<open>str(e)\<close> gives.
\<close>

datatype pyval =
    PNone
  | PBool bool
  | PInt int
  | PStr string
  | PList "pyval list"
  | PDict "(string \<times> pyval) list"

datatype pyexc = PyExc (exc_type: string) (exc_str: string)

type_synonym kwargs = "(string \<times> pyval) list"

text \<open>
  An awaited operation may answer differently every time it is invoked. It is a
  function of the number of invocations made before, of the positional and of the
  keyword arguments; \<open>Inl\<close> is a raised exception, \<open>Inr\<close> a returned value.
\<close>

type_synonym operation = "nat \<Rightarrow> pyval list \<Rightarrow> kwargs \<Rightarrow> pyexc + pyval"

text \<open>
  The effects of a run that a caller can observe: how often the operation was
  invoked, the delays handed to \<^verbatim>\<open>asyncio.sleep\<close> (oldest first), and the reads of
  the random generator, the clock and the traceback formatter.
  \<open>rand_source n\<close> is the \<open>n\<close>-th result of \<^verbatim>\<open>random.random()\<close>.
\<close>

record world =
  op_calls :: nat
  slept :: "real list"
  rand_draws :: nat
  rand_source :: "nat \<Rightarrow> real"
  clock :: real
  tb_text :: string

definition invoke :: "operation \<Rightarrow> pyval list \<Rightarrow> kwargs \<Rightarrow> world \<Rightarrow> (pyexc + pyval) \<times> world" where
  "invoke operation args kw w = (operation (op_calls w) args kw, w\<lparr>op_calls := Suc (op_calls w)\<rparr>)"

definition sleep :: "real \<Rightarrow> world \<Rightarrow> world" where
  "sleep delay w = w\<lparr>slept := slept w @ [delay]\<rparr>"

definition uniform :: "real \<Rightarrow> real \<Rightarrow> world \<Rightarrow> real \<times> world" where
  \<comment> \<open>\<^verbatim>\<open>random.uniform(a, b)\<close> is \<^verbatim>\<open>a + (b - a) * random()\<close>\<close>
  "uniform a b w = (a + (b - a) * rand_source w (rand_draws w), w\<lparr>rand_draws := Suc (rand_draws w)\<rparr>)"

section \<open>Strings: \<^verbatim>\<open>str.lower\<close> and the \<^verbatim>\<open>in\<close> operator\<close>

text \<open>Class names are ASCII identifiers; \<^verbatim>\<open>lower()\<close> maps A..Z to a..z.\<close>

definition lower_char :: "char \<Rightarrow> char" where
  "lower_char c =
     (let n = (of_char c :: nat) in if 65 \<le> n \<and> n \<le> 90 then char_of (n + 32) else c)"

definition lower :: "string \<Rightarrow> string" where
  "lower s = map lower_char s"

text \<open>\<^verbatim>\<open>sub in s\<close> on strings: \<open>sub\<close> occurs in \<open>s\<close> as a contiguous block.\<close>

fun str_contains :: "string \<Rightarrow> string \<Rightarrow> bool" where
  "str_contains sub [] = (sub = [])"
| "str_contains sub (c # cs) = (prefix sub (c # cs) \<or> str_contains sub cs)"

section \<open>The error model (\<^verbatim>\<open>error_recovery.py\<close>)\<close>

datatype ErrorSeverity = LOW | MEDIUM | HIGH | CRITICAL

datatype RecoveryStrategy = RETRY | FALLBACK | SKIP | ESCALATE

text \<open>The \<^verbatim>\<open>.value\<close> of a member of the enum \<^verbatim>\<open>RecoveryStrategy\<close>.\<close>

fun strategy_value :: "RecoveryStrategy \<Rightarrow> string" where
  "strategy_value RETRY = ''retry''"
| "strategy_value FALLBACK = ''fallback''"
| "strategy_value SKIP = ''skip''"
| "strategy_value ESCALATE = ''escalate''"

text \<open>The dictionary stored in \<^verbatim>\<open>AnalysisError.context\<close>, with its four fixed keys.\<close>

record ErrorContext =
  operation_name :: string
  args_count :: nat
  kwargs_keys :: "string list"
  traceback :: string

text \<open>
  The dataclass \<^verbatim>\<open>AnalysisError\<close>. Both counters are created by the dataclass
  defaults (0 and 3) and \<open>retry_count\<close> is only ever incremented, so they are
  natural numbers.
\<close>

record AnalysisError =
  error_type :: string
  message :: string
  severity :: ErrorSeverity
  recoverable :: bool
  recovery_strategy :: RecoveryStrategy
  error_context :: ErrorContext
  timestamp :: real
  retry_count :: nat
  max_retries :: nat

definition should_retry :: "AnalysisError \<Rightarrow> bool" where
  "should_retry err =
     (recoverable err \<and> recovery_strategy err = RETRY \<and> retry_count err < max_retries err)"

definition increment_retry :: "AnalysisError \<Rightarrow> AnalysisError" where
  "increment_retry err = err\<lparr>retry_count := retry_count err + 1\<rparr>"

text \<open>
  \<^verbatim>\<open>_create_error_from_exception\<close> (the leading underscore of a Python name is
  dropped throughout). The traceback text and the time are what
  \<^verbatim>\<open>traceback.format_exc()\<close> and \<^verbatim>\<open>time.time()\<close> return at the call.
\<close>

definition create_error_from_exception ::
  "pyexc \<Rightarrow> string \<Rightarrow> pyval list \<Rightarrow> kwargs \<Rightarrow> string \<Rightarrow> real \<Rightarrow> AnalysisError" where
  "create_error_from_exception exception opname args kw tb now =
     (let etype = lower (exc_type exception);
          (sev, rec, strategy) =
            (if str_contains ''timeout'' etype then (HIGH, True, RETRY)
             else if str_contains ''memory'' etype then (CRITICAL, True, FALLBACK)
             else if str_contains ''network'' etype \<or> str_contains ''connection'' etype
               then (MEDIUM, True, RETRY)
             else if str_contains ''database'' etype then (HIGH, True, RETRY)
             else (MEDIUM, False, ESCALATE))
      in \<lparr>error_type = etype,
          message = exc_str exception,
          severity = sev,
          recoverable = rec,
          recovery_strategy = strategy,
          error_context = \<lparr>operation_name = opname, args_count = length args,
                           kwargs_keys = map fst kw, traceback = tb\<rparr>,
          timestamp = now,
          retry_count = 0,
          max_retries = 3\<rparr>)"

section \<open>Recovery strategies\<close>

text \<open>
  A strategy is called with the error, the operation and its arguments. It may
  invoke the operation, sleep, draw random numbers and increment the error's retry
  counter; it returns a value (\<open>PNone\<close> for Python's \<^verbatim>\<open>None\<close>) or raises. The
  assignment \<^verbatim>\<open>kwargs["features"] = ...\<close> of the two fallbacks changes a dictionary
  nobody reads afterwards, so the keyword arguments are not part of the result.
\<close>

type_synonym strategy =
  "AnalysisError \<Rightarrow> operation \<Rightarrow> pyval list \<Rightarrow> kwargs \<Rightarrow> world
     \<Rightarrow> (pyexc + pyval) \<times> AnalysisError \<times> world"

text \<open>
  \<^verbatim>\<open>min(base_delay * (2 ** attempt), max_delay)\<close>. The power is an exact integer and
  its conversion to a float raises \<^verbatim>\<open>OverflowError\<close> from \<open>2 ^ 1024\<close> on; below that
  bound every value involved is a power of two or the cap, which binary floating
  point represents exactly, so the delay is the real number the formula denotes.
\<close>

definition capped_delay :: "real \<Rightarrow> real \<Rightarrow> nat \<Rightarrow> pyexc + real" where
  "capped_delay base_delay max_delay attempt =
     (if 1024 \<le> attempt then Inl (PyExc ''OverflowError'' ''int too large to convert to float'')
      else Inr (min (base_delay * 2 ^ attempt) max_delay))"

definition backoff_delay :: "nat \<Rightarrow> world \<Rightarrow> (pyexc + real) \<times> world" where
  \<comment> \<open>\<^verbatim>\<open>_retry_with_backoff\<close>: base 1.0, cap 30.0\<close>
  "backoff_delay attempt w = (capped_delay 1 30 attempt, w)"

definition exponential_delay :: "nat \<Rightarrow> world \<Rightarrow> (pyexc + real) \<times> world" where
  \<comment> \<open>\<^verbatim>\<open>_retry_with_exponential_backoff\<close>: base 1.0, cap 60.0, jitter factor 0.1\<close>
  "exponential_delay attempt w =
     (case capped_delay 1 60 attempt of
        Inl e \<Rightarrow> (Inl e, w)
      | Inr delay \<Rightarrow>
          (case uniform (- 1) 1 w of
             (u, w1) \<Rightarrow> (Inr (delay + delay * (1 / 10) * u), w1)))"

definition jitter_delay :: "nat \<Rightarrow> world \<Rightarrow> (pyexc + real) \<times> world" where
  \<comment> \<open>\<^verbatim>\<open>_retry_with_jitter\<close>: \<^verbatim>\<open>1.0 + random.uniform(0, 4.0)\<close>\<close>
  "jitter_delay attempt w = (case uniform 0 4 w of (u, w1) \<Rightarrow> (Inr (1 + u), w1))"

text \<open>
  The body of \<^verbatim>\<open>for attempt in range(error.retry_count, error.max_retries)\<close>, which
  the three retry strategies share word for word apart from the delay: compute the
  delay, sleep, invoke the operation; return its result, or count the failure and go
  on. Falling out of the loop returns \<^verbatim>\<open>None\<close>.
\<close>

fun retry_loop ::
  "(nat \<Rightarrow> world \<Rightarrow> (pyexc + real) \<times> world) \<Rightarrow> nat list \<Rightarrow> AnalysisError \<Rightarrow> operation
     \<Rightarrow> pyval list \<Rightarrow> kwargs \<Rightarrow> world \<Rightarrow> (pyexc + pyval) \<times> AnalysisError \<times> world" where
  "retry_loop delay_of [] err operation args kw w = (Inr PNone, err, w)"
| "retry_loop delay_of (attempt # rest) err operation args kw w =
     (case delay_of attempt w of
        (Inl e, w1) \<Rightarrow> (Inl e, err, w1)
      | (Inr delay, w1) \<Rightarrow>
          (case invoke operation args kw (sleep delay w1) of
             (Inr result, w2) \<Rightarrow> (Inr result, err, w2)
           | (Inl e, w2) \<Rightarrow> retry_loop delay_of rest (increment_retry err) operation args kw w2))"

definition retry_with_backoff :: strategy where
  "retry_with_backoff err operation args kw w =
     (if \<not> should_retry err then (Inr PNone, err, w)
      else retry_loop backoff_delay [retry_count err ..< max_retries err] err operation args kw w)"

definition retry_with_exponential_backoff :: strategy where
  "retry_with_exponential_backoff err operation args kw w =
     (if \<not> should_retry err then (Inr PNone, err, w)
      else retry_loop exponential_delay [retry_count err ..< max_retries err] err operation args kw w)"

definition retry_with_jitter :: strategy where
  "retry_with_jitter err operation args kw w =
     (if \<not> should_retry err then (Inr PNone, err, w)
      else retry_loop jitter_delay [retry_count err ..< max_retries err] err operation args kw w)"

text \<open>
  \<^verbatim>\<open>len(x)\<close> and \<^verbatim>\<open>x[:k]\<close> on the value passed as feature list. A value without
  a length, or one that cannot be sliced, raises; which exception it is makes no
  difference, since \<^verbatim>\<open>_attempt_recovery\<close> catches them all.
\<close>

fun py_len :: "pyval \<Rightarrow> pyexc + nat" where
  "py_len (PList xs) = Inr (length xs)"
| "py_len (PStr s) = Inr (length s)"
| "py_len (PDict d) = Inr (length d)"
| "py_len v = Inl (PyExc ''TypeError'' ''object has no len()'')"

fun py_slice_to :: "nat \<Rightarrow> pyval \<Rightarrow> pyexc + pyval" where
  "py_slice_to k (PList xs) = Inr (PList (take k xs))"
| "py_slice_to k (PStr s) = Inr (PStr (take k s))"
| "py_slice_to k v = Inl (PyExc ''TypeError'' ''object is not subscriptable by a slice'')"

definition reduce_complexity_fallback :: strategy where
  "reduce_complexity_fallback err operation args kw w =
     (case map_of kw ''features'' of
        None \<Rightarrow> (Inr PNone, err, w)
      | Some original_features \<Rightarrow>
          (case py_len original_features of
             Inl e \<Rightarrow> (Inl e, err, w)
           | Inr n \<Rightarrow>
               if 1 < n then
                 (case py_slice_to (n div 2) original_features of
                    Inl e \<Rightarrow> (Inl e, err, w)
                  | Inr reduced_features \<Rightarrow>
                      (case invoke operation args (AList.update ''features'' reduced_features kw) w of
                         (Inr result, w1) \<Rightarrow>
                           (Inr (PDict [(''fallback_applied'', PBool True),
                                        (''reason'', PStr ''memory_error''),
                                        (''reduced_features'', reduced_features),
                                        (''result'', result)]), err, w1)
                       | (Inl e, w1) \<Rightarrow> (Inr PNone, err, w1)))
               else (Inr PNone, err, w)))"

definition fallback_to_simpler_analysis :: strategy where
  "fallback_to_simpler_analysis err operation args kw w =
     (case map_of kw ''features'' of
        None \<Rightarrow> (Inr PNone, err, w)
      | Some original_features \<Rightarrow>
          (let simple_features = PList [PStr ''basic_info'', PStr ''strings'']
           in case invoke operation args (AList.update ''features'' simple_features kw) w of
                (Inr result, w1) \<Rightarrow>
                  (Inr (PDict [(''fallback_applied'', PBool True),
                               (''reason'', PStr ''analysis_error''),
                               (''simple_features'', simple_features),
                               (''result'', result)]), err, w1)
              | (Inl e, w1) \<Rightarrow> (Inr PNone, err, w1)))"

section \<open>The recovery manager\<close>

text \<open>
  \<^verbatim>\<open>ErrorRecoveryManager\<close>. The dictionary \<^verbatim>\<open>error_handlers\<close> holds five functions
  that only write to the log and that nothing calls; it is left out.
\<close>

record ErrorRecoveryManager =
  recovery_strategies :: "string \<rightharpoonup> strategy"
  error_history :: "AnalysisError list"
  max_history_size :: int

definition setup_default_handlers :: "ErrorRecoveryManager \<Rightarrow> ErrorRecoveryManager" where
  "setup_default_handlers m =
     m\<lparr>recovery_strategies := (recovery_strategies m)
          (''timeout'' \<mapsto> retry_with_backoff,
           ''memory'' \<mapsto> reduce_complexity_fallback,
           ''network'' \<mapsto> retry_with_exponential_backoff,
           ''analysis'' \<mapsto> fallback_to_simpler_analysis,
           ''database'' \<mapsto> retry_with_jitter)\<rparr>"

definition new_manager :: ErrorRecoveryManager where
  \<comment> \<open>\<^verbatim>\<open>ErrorRecoveryManager.__init__\<close>\<close>
  "new_manager =
     setup_default_handlers
       \<lparr>recovery_strategies = Map.empty, error_history = [], max_history_size = 1000\<rparr>"

text \<open>\<^verbatim>\<open>_log_error\<close>: append, then \<^verbatim>\<open>pop(0)\<close> once when the list is over the bound.\<close>

definition log_error :: "ErrorRecoveryManager \<Rightarrow> AnalysisError \<Rightarrow> ErrorRecoveryManager" where
  "log_error m err =
     (let history = error_history m @ [err]
      in m\<lparr>error_history :=
             (if int (length history) > max_history_size m then tl history else history)\<rparr>)"

definition attempt_recovery ::
  "ErrorRecoveryManager \<Rightarrow> AnalysisError \<Rightarrow> operation \<Rightarrow> pyval list \<Rightarrow> kwargs \<Rightarrow> world
     \<Rightarrow> pyval \<times> AnalysisError \<times> world" where
  "attempt_recovery m err operation args kw w =
     (if \<not> recoverable err then (PNone, err, w)
      else
        (case recovery_strategies m (strategy_value (recovery_strategy err)) of
           None \<Rightarrow> (PNone, err, w)
         | Some strategy_func \<Rightarrow>
             (case strategy_func err operation args kw w of
                (Inr r, err1, w1) \<Rightarrow> (r, err1, w1)
              | (Inl recovery_error, err1, w1) \<Rightarrow> (PNone, err1, w1))))"

text \<open>
  The history holds the error object itself, so the increments a retry loop makes
  are seen through the history too: after recovery the entry just appended, if the
  bound left it in the list, is the error as the strategy left it.
\<close>

definition write_back :: "AnalysisError \<Rightarrow> AnalysisError list \<Rightarrow> AnalysisError list" where
  "write_back err history = (if history = [] then [] else butlast history @ [err])"

definition execute_with_recovery ::
  "ErrorRecoveryManager \<Rightarrow> operation \<Rightarrow> string \<Rightarrow> pyval list \<Rightarrow> kwargs \<Rightarrow> world
     \<Rightarrow> (pyexc + pyval) \<times> ErrorRecoveryManager \<times> world" where
  "execute_with_recovery m operation opname args kw w =
     (case invoke operation args kw w of
        (Inr result, w1) \<Rightarrow> (Inr result, m, w1)
      | (Inl e, w1) \<Rightarrow>
          (let err = create_error_from_exception e opname args kw (tb_text w1) (clock w1);
               m1 = log_error m err
           in case attempt_recovery m1 err operation args kw w1 of
                (recovery_result, err1, w2) \<Rightarrow>
                  (let m2 = m1\<lparr>error_history := write_back err1 (error_history m1)\<rparr>
                   in if recovery_result \<noteq> PNone then (Inr recovery_result, m2, w2)
                      else (Inl e, m2, w2))))"

section \<open>Region management (\<^verbatim>\<open>multi_region.py\<close>)\<close>

text \<open>
  Modelled from the spec: \<^verbatim>\<open>RegionConfig\<close>, which is declared in the configuration
  module and not in the three modules above. Its fields are the configuration
  inputs the specification lists (region enablement flag, region id list, current
  region id, primary region id, replication enablement flag, replication targets,
  cross-region timeout), under the attribute names \<^verbatim>\<open>multi_region.py\<close> reads them
  by; the list of region ids is \<open>configured_regions\<close> here
  (\<^verbatim>\<open>region_config.regions\<close> in the source).
\<close>

record RegionConfig =
  enabled :: bool
  configured_regions :: "string list"
  current_region :: string
  primary_region :: "string option"
  replication_enabled :: bool
  replication_regions :: "string list"
  cross_region_timeout :: real

text \<open>The dataclass \<^verbatim>\<open>RegionStatus\<close>; \<open>last_check\<close> is a point in time.\<close>

record RegionStatus =
  region :: string
  url :: string
  healthy :: bool
  latency_ms :: real
  last_check :: "real option"
  error :: "string option"

record ClientSession =
  timeout_total :: real

text \<open>
  \<^verbatim>\<open>MultiRegionManager\<close>. The dictionary \<open>regions\<close> is an association list in
  insertion order, the order Python iterates a dictionary in.
\<close>

record MultiRegionManager =
  region_config :: RegionConfig
  regions :: "(string \<times> RegionStatus) list"
  session :: "ClientSession option"

definition get_region_url :: "string \<Rightarrow> string" where
  "get_region_url rname = ''https://ghidrainsight-'' @ rname @ ''.example.com''"

definition initialize_regions :: "RegionConfig \<Rightarrow> (string \<times> RegionStatus) list" where
  "initialize_regions cfg =
     (if \<not> enabled cfg then []
      else fold (\<lambda>rname rs.
                  AList.update rname
                    \<lparr>region = rname, url = get_region_url rname, healthy = False,
                     latency_ms = 0, last_check = None, error = None\<rparr> rs)
             (configured_regions cfg) [])"

definition new_region_manager :: "RegionConfig \<Rightarrow> MultiRegionManager" where
  \<comment> \<open>\<^verbatim>\<open>MultiRegionManager.__init__\<close>\<close>
  "new_region_manager cfg =
     \<lparr>region_config = cfg, regions = initialize_regions cfg, session = None\<rparr>"

definition initialize :: "MultiRegionManager \<Rightarrow> MultiRegionManager" where
  "initialize m =
     (if enabled (region_config m)
      then m\<lparr>session := Some \<lparr>timeout_total = cross_region_timeout (region_config m)\<rparr>\<rparr>
      else m)"

text \<open>
  What a health probe touches outside the manager: the GET requests sent (oldest
  first) with the answer to the \<open>n\<close>-th one, an exception or a status code; the
  readings of the event loop's clock; and \<^verbatim>\<open>datetime.utcnow()\<close>.
\<close>

record net =
  requests :: "string list"
  http_get :: "nat \<Rightarrow> string \<Rightarrow> pyexc + nat"
  loop_reads :: nat
  loop_time :: "nat \<Rightarrow> real"
  utcnow :: real

definition session_get :: "string \<Rightarrow> net \<Rightarrow> (pyexc + nat) \<times> net" where
  "session_get target n =
     (http_get n (length (requests n)) target, n\<lparr>requests := requests n @ [target]\<rparr>)"

definition read_loop_time :: "net \<Rightarrow> real \<times> net" where
  "read_loop_time n = (loop_time n (loop_reads n), n\<lparr>loop_reads := Suc (loop_reads n)\<rparr>)"

text \<open>The decimal numeral \<^verbatim>\<open>f"{status}"\<close> prints for a status code.\<close>

fun str_of_nat :: "nat \<Rightarrow> string" where
  "str_of_nat n =
     (if n < 10 then [char_of (48 + n)]
      else str_of_nat (n div 10) @ [char_of (48 + n mod 10)])"

declare str_of_nat.simps [simp del]

definition check_region_health ::
  "MultiRegionManager \<Rightarrow> string \<Rightarrow> net \<Rightarrow> bool \<times> MultiRegionManager \<times> net" where
  "check_region_health m rname n =
     (case (session m, map_of (regions m) rname) of
        (Some s, Some region_status) \<Rightarrow>
          (case read_loop_time n of
             (start_time, n1) \<Rightarrow>
               (case session_get (url region_status @ ''/health'') n1 of
                  (Inr status, n2) \<Rightarrow>
                    (case read_loop_time n2 of
                       (t, n3) \<Rightarrow>
                         (let latency = (t - start_time) * 1000
                          in if status = 200
                             then (True,
                                   m\<lparr>regions := AList.update rname
                                       (region_status\<lparr>healthy := True, latency_ms := latency,
                                          last_check := Some (utcnow n3), error := None\<rparr>)
                                       (regions m)\<rparr>, n3)
                             else (False,
                                   m\<lparr>regions := AList.update rname
                                       (region_status\<lparr>healthy := False,
                                          error := Some (''HTTP '' @ str_of_nat status)\<rparr>)
                                       (regions m)\<rparr>, n3)))
                | (Inl e, n2) \<Rightarrow>
                    (case read_loop_time n2 of
                       (t, n3) \<Rightarrow>
                         (let latency = (t - start_time) * 1000
                          in (False,
                              m\<lparr>regions := AList.update rname
                                  (region_status\<lparr>healthy := False, latency_ms := latency,
                                     error := Some (exc_str e)\<rparr>)
                                  (regions m)\<rparr>, n3)))))
      | _ \<Rightarrow> (False, m, n))"

text \<open>
  \<^verbatim>\<open>min(items, key=...)\<close> keeps the item it holds unless a later one has a strictly
  smaller key, so among equal keys the first item wins.
\<close>

fun py_min_by :: "('a \<Rightarrow> real) \<Rightarrow> 'a \<Rightarrow> 'a list \<Rightarrow> 'a" where
  "py_min_by key best [] = best"
| "py_min_by key best (x # xs) = py_min_by key (if key x < key best then x else best) xs"

definition healthy_regions :: "MultiRegionManager \<Rightarrow> (string \<times> real) list" where
  "healthy_regions m = map (\<lambda>(rname, status). (rname, latency_ms status))
                         (filter (\<lambda>(rname, status). healthy status) (regions m))"

definition get_best_region :: "MultiRegionManager \<Rightarrow> string" where
  "get_best_region m =
     (if \<not> enabled (region_config m) then current_region (region_config m)
      else
        (case healthy_regions m of
           [] \<Rightarrow> current_region (region_config m)
         | first # others \<Rightarrow> fst (py_min_by snd first others)))"

definition is_current_region_primary :: "MultiRegionManager \<Rightarrow> bool" where
  "is_current_region_primary m =
     (if \<not> enabled (region_config m) then True
      else (primary_region (region_config m) = None \<or>
            Some (current_region (region_config m)) = primary_region (region_config m)))"

section \<open>Feature-mode dispatch (\<^verbatim>\<open>distributed_tasks.py\<close>)\<close>

text \<open>
  The analysis engine is an external collaborator: \<open>engine n feature data\<close> is what
  \<^verbatim>\<open>analysis_engine._run_feature_analysis(feature, data)\<close> does when \<open>n\<close> calls of
  the engine came before it in the task. A task's payload is a byte string.
\<close>

type_synonym bytes = "8 word list"

type_synonym engine = "nat \<Rightarrow> string \<Rightarrow> bytes \<Rightarrow> pyexc + pyval"

text \<open>
  The loop \<^verbatim>\<open>for feature in features\<close> of \<^verbatim>\<open>analyze_binary_parallel\<close>. Besides the
  dictionary \<open>results\<close> it returns the engine calls made, oldest first.
\<close>

fun feature_loop ::
  "engine \<Rightarrow> bytes \<Rightarrow> string list \<Rightarrow> (string \<times> pyval) list \<Rightarrow> (string \<times> bytes) list
     \<Rightarrow> (string \<times> pyval) list \<times> (string \<times> bytes) list" where
  "feature_loop eng binary_data [] results trace = (results, trace)"
| "feature_loop eng binary_data (feature # rest) results trace =
     (case eng (length trace) feature binary_data of
        Inr result \<Rightarrow>
          feature_loop eng binary_data rest
            (AList.update feature result results) (trace @ [(feature, binary_data)])
      | Inl e \<Rightarrow>
          feature_loop eng binary_data rest
            (AList.update feature (PDict [(''error'', PStr (exc_str e))]) results)
            (trace @ [(feature, binary_data)]))"

text \<open>
  With a list of strings and a byte string as arguments nothing outside the inner
  \<^verbatim>\<open>try\<close> can raise, so the outer handler, which builds the envelope with
  \<^verbatim>\<open>"success": False\<close>, is never entered.
\<close>

definition analyze_binary_parallel ::
  "engine \<Rightarrow> bytes \<Rightarrow> string list \<Rightarrow> pyval \<times> (string \<times> bytes) list" where
  "analyze_binary_parallel eng binary_data features =
     (case feature_loop eng binary_data features [] [] of
        (results, trace) \<Rightarrow>
          (PDict [(''features_analyzed'', PList (map PStr features)),
                  (''results'', PDict results),
                  (''success'', PBool True),
                  (''binary_size'', PInt (int (length binary_data)))], trace))"

text \<open>\<^verbatim>\<open>d[k]\<close> on a dictionary value, for reading an envelope.\<close>

fun py_get :: "pyval \<Rightarrow> string \<Rightarrow> pyval option" where
  "py_get (PDict d) k = map_of d k"
| "py_get v k = None"

section \<open>Sample inputs and auxiliary notions\<close>

text \<open>A thousand and one errors that differ in their time stamps.\<close>

definition sample_error :: "nat \<Rightarrow> AnalysisError" where
  "sample_error i =
     create_error_from_exception (PyExc ''TimeoutError'' ''timed out'') ''analyze'' [] [] [] (real i)"

definition sample_errors :: "AnalysisError list" where
  "sample_errors = map sample_error [0..<1001]"

text \<open>
  A world in which nothing has happened yet, operations that fail always or only
  the first time, an error that allows five retries, and a manager on which the
  backoff strategy is also registered under the name \<open>retry\<close>.
\<close>

definition quiet_world :: world where
  "quiet_world = \<lparr>op_calls = 0, slept = [], rand_draws = 0, rand_source = (\<lambda>n. 0),
                   clock = 0, tb_text = []\<rparr>"

definition always_fails :: "pyexc \<Rightarrow> operation" where
  "always_fails e = (\<lambda>n args kw. Inl e)"

definition fails_once_then :: "pyexc \<Rightarrow> pyval \<Rightarrow> operation" where
  "fails_once_then e v = (\<lambda>n args kw. if n = 0 then Inl e else Inr v)"

definition timeout_error :: pyexc where
  "timeout_error = PyExc ''TimeoutError'' ''timed out''"

definition patient_error :: AnalysisError where
  "patient_error =
     (create_error_from_exception timeout_error ''analyze'' [] [] [] 0)\<lparr>max_retries := 5\<rparr>"

definition retry_manager :: ErrorRecoveryManager where
  "retry_manager =
     new_manager\<lparr>recovery_strategies := (recovery_strategies new_manager)(''retry'' \<mapsto> retry_with_backoff)\<rparr>"

text \<open>
  Two configurations with regions enabled, replication disabled and primary \<open>us\<close>:
  one for the region \<open>eu\<close>, one for \<open>us\<close> itself.
\<close>

definition secondary_config :: RegionConfig where
  "secondary_config =
     \<lparr>enabled = True, configured_regions = [''us'', ''eu''], current_region = ''eu'',
      primary_region = Some ''us'', replication_enabled = False, replication_regions = [],
      cross_region_timeout = 30\<rparr>"

definition primary_config :: RegionConfig where
  "primary_config = secondary_config\<lparr>current_region := ''us''\<rparr>"

text \<open>
  A manager with the three regions of the example (A healthy at 50 ms, B healthy at
  10 ms, C unhealthy), a manager fresh from the constructor, on which no region has
  been found healthy yet, a network that gives every request the same answer and
  takes a quarter of a second for it, and the property of a manager that its region
  map is empty unless multi-region support is enabled.
\<close>

definition three_regions :: MultiRegionManager where
  "three_regions =
     \<lparr>region_config = secondary_config\<lparr>configured_regions := [''A'', ''B'', ''C'']\<rparr>,
      regions =
        [(''A'', \<lparr>region = ''A'', url = get_region_url ''A'', healthy = True,
                  latency_ms = 50, last_check = Some 1, error = None\<rparr>),
         (''B'', \<lparr>region = ''B'', url = get_region_url ''B'', healthy = True,
                  latency_ms = 10, last_check = Some 1, error = None\<rparr>),
         (''C'', \<lparr>region = ''C'', url = get_region_url ''C'', healthy = False,
                  latency_ms = 5, last_check = None, error = Some ''HTTP 503''\<rparr>)],
      session = Some \<lparr>timeout_total = 30\<rparr>\<rparr>"

definition no_healthy_regions :: MultiRegionManager where
  "no_healthy_regions = initialize (new_region_manager secondary_config)"

definition net_answering :: "(pyexc + nat) \<Rightarrow> net" where
  "net_answering answer =
     \<lparr>requests = [], http_get = (\<lambda>n target. answer), loop_reads = 0,
      loop_time = (\<lambda>n. if n = 0 then 10 else 10 + 1 / 4), utcnow = 99\<rparr>"

definition regions_only_if_enabled :: "MultiRegionManager \<Rightarrow> bool" where
  "regions_only_if_enabled m = (enabled (region_config m) \<or> regions m = [])"

text \<open>
  The entry feature-mode dispatch stores for an outcome of the engine, and an
  engine that raises on the feature \<open>b\<close> only.
\<close>

definition feature_entry :: "pyexc + pyval \<Rightarrow> pyval" where
  "feature_entry outcome =
     (case outcome of Inr result \<Rightarrow> result | Inl e \<Rightarrow> PDict [(''error'', PStr (exc_str e))])"

definition raises_on_b :: engine where
  "raises_on_b = (\<lambda>n feature binary_data.
     if feature = ''b'' then Inl (PyExc ''ValueError'' ''bad feature'')
     else Inr (PStr ''ok''))"

section \<open>Classification of failures\<close>

text \<open>The three fields of an error that classification decides.\<close>

definition classification :: "AnalysisError \<Rightarrow> ErrorSeverity \<times> bool \<times> RecoveryStrategy" where
  "classification err = (severity err, recoverable err, recovery_strategy err)"

lemma str_contains_sublist: "str_contains sub s = sublist sub s"
  by (induction s) (simp_all add: sublist_Cons_right)

lemma str_contains_iff: "str_contains sub s \<longleftrightarrow> (\<exists>p q. s = p @ sub @ q)"
  by (simp add: str_contains_sublist sublist_def)

text \<open>
  Claim C3. The error built from a raised exception carries the lower-cased name
  of the exception's class, and its severity, recoverability and strategy are
  decided by that name alone, through substring tests tried in a fixed order:
  \<open>timeout\<close> gives high, recoverable, retry; else \<open>memory\<close> gives critical,
  recoverable, fallback; else \<open>network\<close> or \<open>connection\<close> gives medium, recoverable,
  retry; else \<open>database\<close> gives high, recoverable, retry; else medium, not
  recoverable, escalate. A name that matches several tests takes the earliest rule.
  Two exceptions with the same lower-cased class name are classified alike, whatever
  the message, operation, arguments, traceback and time.
\<close>

theorem classification_priority_order:
  assumes "t = lower (exc_type exception)"
    and "err = create_error_from_exception exception opname args kw tb now"
  shows "error_type err = t \<and>
    (str_contains ''timeout'' t \<longrightarrow> classification err = (HIGH, True, RETRY)) \<and>
    (\<not> str_contains ''timeout'' t \<and> str_contains ''memory'' t \<longrightarrow>
       classification err = (CRITICAL, True, FALLBACK)) \<and>
    (\<not> str_contains ''timeout'' t \<and> \<not> str_contains ''memory'' t \<and>
     (str_contains ''network'' t \<or> str_contains ''connection'' t) \<longrightarrow>
       classification err = (MEDIUM, True, RETRY)) \<and>
    (\<not> str_contains ''timeout'' t \<and> \<not> str_contains ''memory'' t \<and>
     \<not> str_contains ''network'' t \<and> \<not> str_contains ''connection'' t \<and>
     str_contains ''database'' t \<longrightarrow> classification err = (HIGH, True, RETRY)) \<and>
    (\<not> str_contains ''timeout'' t \<and> \<not> str_contains ''memory'' t \<and>
     \<not> str_contains ''network'' t \<and> \<not> str_contains ''connection'' t \<and>
     \<not> str_contains ''database'' t \<longrightarrow> classification err = (MEDIUM, False, ESCALATE)) \<and>
    (\<forall>exception' opname' args' kw' tb' now'.
       lower (exc_type exception') = t \<longrightarrow>
       classification (create_error_from_exception exception' opname' args' kw' tb' now')
         = classification err)"
  using assms
  by (simp add: create_error_from_exception_def classification_def Let_def)

theorem classification_priority_order_witness:
  "str_contains ''timeout'' (lower ''MemoryTimeoutError'') \<and>
   str_contains ''memory'' (lower ''MemoryTimeoutError'') \<and>
   classification (create_error_from_exception (PyExc ''MemoryTimeoutError'' ''slow'')
                     ''analyze'' [] [] ''tb'' 0) = (HIGH, True, RETRY) \<and>
   \<not> str_contains ''timeout'' (lower ''DatabaseConnectionError'') \<and>
   \<not> str_contains ''memory'' (lower ''DatabaseConnectionError'') \<and>
   str_contains ''connection'' (lower ''DatabaseConnectionError'') \<and>
   str_contains ''database'' (lower ''DatabaseConnectionError'') \<and>
   classification (create_error_from_exception (PyExc ''DatabaseConnectionError'' ''down'')
                     ''analyze'' [] [] ''tb'' 0) = (MEDIUM, True, RETRY)"
proof -
  have t1: "str_contains ''timeout'' (lower ''MemoryTimeoutError'')"
    and t2: "str_contains ''memory'' (lower ''MemoryTimeoutError'')"
    by code_simp+
  have d1: "\<not> str_contains ''timeout'' (lower ''DatabaseConnectionError'')"
    and d2: "\<not> str_contains ''memory'' (lower ''DatabaseConnectionError'')"
    and d3: "str_contains ''connection'' (lower ''DatabaseConnectionError'')"
    and d4: "str_contains ''database'' (lower ''DatabaseConnectionError'')"
    by code_simp+
  show ?thesis
    using t1 t2 d1 d2 d3 d4
      classification_priority_order [OF refl refl,
        of "PyExc ''MemoryTimeoutError'' ''slow''" "''analyze''" "[]" "[]" "''tb''" 0]
      classification_priority_order [OF refl refl,
        of "PyExc ''DatabaseConnectionError'' ''down''" "''analyze''" "[]" "[]" "''tb''" 0]
    by simp
qed

section \<open>The bounded error history\<close>


lemma drop_step:
  "drop (length (drop (length H - b) H @ [e]) - b) (drop (length H - b) H @ [e])
     = drop (length (H @ [e]) - b) (H @ [e])"
proof (cases "length H \<le> b")
  case True
  then show ?thesis by simp
next
  case False
  then have lt: "b < length H" by simp
  show ?thesis
  proof (cases "b = 0")
    case True
    then show ?thesis by simp
  next
    case False
    with lt show ?thesis by (simp add: Suc_diff_le)
  qed
qed

lemma pop_is_drop:
  assumes "length h \<le> b"
  shows "(if int (length (h @ [e])) > int b then tl (h @ [e]) else h @ [e])
           = drop (length (h @ [e]) - b) (h @ [e])"
proof (cases "length h = b")
  case True
  have "tl (h @ [e]) = drop (Suc 0) (h @ [e])" by (simp only: drop_Suc drop_0)
  with True show ?thesis by simp
next
  case False
  with assms show ?thesis by simp
qed

lemma log_error_history:
  assumes "max_history_size m = int b" "length (error_history m) \<le> b"
  shows "error_history (log_error m err) =
           drop (length (error_history m @ [err]) - b) (error_history m @ [err])"
proof -
  have "error_history (log_error m err) =
          (if int (length (error_history m @ [err])) > int b
           then tl (error_history m @ [err]) else error_history m @ [err])"
    by (simp add: log_error_def Let_def assms(1))
  also have "\<dots> = drop (length (error_history m @ [err]) - b) (error_history m @ [err])"
    by (rule pop_is_drop[OF assms(2)])
  finally show ?thesis .
qed

lemma log_error_max: "max_history_size (log_error m err) = max_history_size m"
  by (simp add: log_error_def Let_def)

lemma foldl_log_error_max: "max_history_size (foldl log_error m es) = max_history_size m"
  by (induction es arbitrary: m) (simp_all add: log_error_max)

lemma foldl_log_error_history:
  assumes "max_history_size m = int b" "length (error_history m) \<le> b"
  shows "error_history (foldl log_error m es) =
           drop (length (error_history m @ es) - b) (error_history m @ es)"
proof (induction es rule: rev_induct)
  case Nil
  from assms(2) show ?case by simp
next
  case (snoc e es)
  let ?m = "foldl log_error m es"
  let ?H = "error_history m @ es"
  have mx: "max_history_size ?m = int b" by (simp add: foldl_log_error_max assms(1))
  have len: "length (error_history ?m) \<le> b" by (simp add: snoc.IH)
  have "error_history (foldl log_error m (es @ [e])) = error_history (log_error ?m e)" by simp
  also have "\<dots> = drop (length (error_history ?m @ [e]) - b) (error_history ?m @ [e])"
    by (rule log_error_history[OF mx len])
  also have "\<dots> = drop (length (drop (length ?H - b) ?H @ [e]) - b) (drop (length ?H - b) ?H @ [e])"
    by (simp only: snoc.IH)
  also have "\<dots> = drop (length (?H @ [e]) - b) (?H @ [e])"
    by (rule drop_step)
  finally show ?case by simp
qed

lemma new_manager_history: "error_history new_manager = []"
  and new_manager_max: "max_history_size new_manager = 1000"
  by (simp_all add: new_manager_def setup_default_handlers_def)

text \<open>
  Claim C9. Whatever errors are logged on a fresh manager, in whatever number, the
  history is the last 1000 of them in the order they were logged, so it never holds
  more than 1000 entries. After 1001 errors the history is all of them but the
  first: the newest is there and the oldest (when the errors are pairwise distinct,
  so that it can be told apart) is gone.
\<close>

theorem history_bounded_fifo:
  "error_history (foldl log_error new_manager es) = drop (length es - 1000) es \<and>
   length (error_history (foldl log_error new_manager es)) \<le> 1000 \<and>
   (length es = 1001 \<longrightarrow>
      error_history (foldl log_error new_manager es) = tl es \<and>
      last es \<in> set (error_history (foldl log_error new_manager es)) \<and>
      (distinct es \<longrightarrow> hd es \<notin> set (error_history (foldl log_error new_manager es))))"
proof -
  have eq: "error_history (foldl log_error new_manager es) = drop (length es - 1000) es"
    using foldl_log_error_history[of new_manager 1000 es]
    by (simp add: new_manager_history new_manager_max)
  have a: "length es = 1001 \<Longrightarrow> drop (length es - 1000) es = tl es"
    by (simp only: drop_Suc drop_0 One_nat_def[symmetric]) (simp add: drop_Suc)
  have b: "length es = 1001 \<Longrightarrow> last es \<in> set (tl es)"
  proof -
    assume l: "length es = 1001"
    then obtain x y zs where "es = x # y # zs" by (cases es; cases "tl es") auto
    then show ?thesis by simp
  qed
  have c: "length es = 1001 \<Longrightarrow> distinct es \<Longrightarrow> hd es \<notin> set (tl es)"
    by (cases es) auto
  show ?thesis using eq a b c by simp
qed

lemma timestamp_create_error:
  "timestamp (create_error_from_exception exception opname args kw tb now) = now"
  by (simp add: create_error_from_exception_def Let_def split: prod.splits)

lemma inj_sample_error: "inj sample_error"
proof (rule injI)
  fix i j assume "sample_error i = sample_error j"
  then have "timestamp (sample_error i) = timestamp (sample_error j)" by simp
  then show "i = j" by (simp add: sample_error_def timestamp_create_error)
qed

theorem history_bounded_fifo_witness:
  "length sample_errors = 1001 \<and> distinct sample_errors \<and>
   error_history (foldl log_error new_manager sample_errors) = tl sample_errors \<and>
   last sample_errors \<in> set (error_history (foldl log_error new_manager sample_errors)) \<and>
   hd sample_errors \<notin> set (error_history (foldl log_error new_manager sample_errors))"
proof -
  have l: "length sample_errors = 1001"
    unfolding sample_errors_def by (simp only: length_map length_upt)
  have d: "distinct sample_errors"
    unfolding sample_errors_def
    by (simp only: distinct_map distinct_upt) (simp add: inj_on_subset[OF inj_sample_error])
  show ?thesis
    using history_bounded_fifo [of sample_errors] l d by blast
qed

section \<open>The backoff schedule\<close>

lemma retry_loop_all_fail:
  assumes "\<And>n. \<exists>e. operation n args kw = Inl e"
    and "\<And>a. a \<in> set attempts \<Longrightarrow> a < 1024"
  shows "retry_loop backoff_delay attempts err operation args kw w =
           (Inr PNone,
            err\<lparr>retry_count := retry_count err + length attempts\<rparr>,
            w\<lparr>op_calls := op_calls w + length attempts,
              slept := slept w @ map (\<lambda>a. min (1 * 2 ^ a) 30) attempts\<rparr>)"
  using assms(2)
proof (induction attempts arbitrary: err w)
  case Nil
  then show ?case by simp
next
  case (Cons a attempts)
  obtain e where e: "operation (op_calls w) args kw = Inl e" using assms(1) by blast
  have a: "a < 1024" using Cons.prems by simp
  have d: "backoff_delay a w = (Inr (min (1 * 2 ^ a) 30), w)"
    using a by (simp add: backoff_delay_def capped_delay_def)
  have rest: "\<And>b. b \<in> set attempts \<Longrightarrow> b < 1024" using Cons.prems by simp
  have "retry_loop backoff_delay (a # attempts) err operation args kw w =
          retry_loop backoff_delay attempts (increment_retry err) operation args kw
            (sleep (min (1 * 2 ^ a) 30) w\<lparr>op_calls := Suc (op_calls w)\<rparr>)"
    using d e by (simp add: invoke_def sleep_def)
  also have "\<dots> = (Inr PNone,
            err\<lparr>retry_count := retry_count err + length (a # attempts)\<rparr>,
            w\<lparr>op_calls := op_calls w + length (a # attempts),
              slept := slept w @ map (\<lambda>a. min (1 * 2 ^ a) 30) (a # attempts)\<rparr>)"
    by (simp add: Cons.IH[OF rest] increment_retry_def sleep_def)
  finally show ?case .
qed

lemma retry_with_backoff_all_fail:
  assumes "\<And>n. \<exists>e. operation n args kw = Inl e"
    and "should_retry err" and "max_retries err \<le> 1024"
  shows "retry_with_backoff err operation args kw w =
           (Inr PNone,
            err\<lparr>retry_count := max_retries err\<rparr>,
            w\<lparr>op_calls := op_calls w + (max_retries err - retry_count err),
              slept := slept w @ map (\<lambda>a. min (1 * 2 ^ a) 30) [retry_count err ..< max_retries err]\<rparr>)"
proof -
  have "retry_count err < max_retries err" using assms(2) by (simp add: should_retry_def)
  then show ?thesis
    using retry_loop_all_fail[of operation args kw "[retry_count err ..< max_retries err]" err w]
      assms
    by (simp add: retry_with_backoff_def)
qed

text \<open>
  Claim C8. In retry-with-backoff the delay computed for attempt \<open>n\<close> is
  \<open>min (1 * 2 ^ n) 30\<close> seconds (for every attempt below 1024, where the conversion
  of the power to a float still succeeds): 1, 2, 4, 8, 16 for attempts 0 to 4, and
  the cap 30 for attempt 5. These are the delays actually slept: when every
  invocation fails, the strategy sleeps exactly this sequence for the attempts from
  the error's retry count up to its maximum.
\<close>

theorem backoff_delay_schedule:
  "(\<forall>n<1024. fst (backoff_delay n w) = Inr (min (1 * 2 ^ n) 30)) \<and>
   map (\<lambda>n. fst (backoff_delay n w)) [0, 1, 2, 3, 4, 5]
     = [Inr 1, Inr 2, Inr 4, Inr 8, Inr 16, Inr 30] \<and>
   ((\<forall>n. \<exists>e. operation n args kw = Inl e) \<and> should_retry err \<and> max_retries err \<le> 1024 \<longrightarrow>
      slept (snd (snd (retry_with_backoff err operation args kw w)))
        = slept w @ map (\<lambda>n. min (1 * 2 ^ n) 30) [retry_count err ..< max_retries err])"
proof -
  have a: "\<forall>n<1024. fst (backoff_delay n w) = Inr (min (1 * 2 ^ n) 30)"
    by (simp add: backoff_delay_def capped_delay_def)
  have b: "map (\<lambda>n. fst (backoff_delay n w)) [0, 1, 2, 3, 4, 5]
             = [Inr 1, Inr 2, Inr 4, Inr 8, Inr 16, Inr 30]"
    by (simp add: backoff_delay_def capped_delay_def)
  have c: "(\<forall>n. \<exists>e. operation n args kw = Inl e) \<and> should_retry err \<and> max_retries err \<le> 1024 \<longrightarrow>
      slept (snd (snd (retry_with_backoff err operation args kw w)))
        = slept w @ map (\<lambda>n. min (1 * 2 ^ n) 30) [retry_count err ..< max_retries err]"
    by (simp add: retry_with_backoff_all_fail)
  from a b c show ?thesis by blast
qed

lemma patient_error_facts:
  "should_retry patient_error" "retry_count patient_error = 0" "max_retries patient_error = 5"
  unfolding patient_error_def timeout_error_def should_retry_def
  by code_simp+

lemma upt_0_5: "[0..<5] = [0, 1, 2, 3, 4]"
  by (simp add: upt_rec)

theorem backoff_delay_schedule_witness:
  "(5::nat) < 1024 \<and> fst (backoff_delay 5 quiet_world) = Inr 30 \<and>
   (\<forall>n. \<exists>e. always_fails timeout_error n [] [] = Inl e) \<and>
   should_retry patient_error \<and> max_retries patient_error \<le> 1024 \<and>
   slept (snd (snd (retry_with_backoff patient_error (always_fails timeout_error) [] [] quiet_world)))
     = [1, 2, 4, 8, 16]"
proof -
  have f: "\<forall>n. \<exists>e. always_fails timeout_error n [] [] = Inl e"
    by (simp add: always_fails_def)
  have q: "slept quiet_world = []" by (simp add: quiet_world_def)
  have m: "map (\<lambda>n. min (1 * 2 ^ n) (30::real)) [0, 1, 2, 3, 4] = [1, 2, 4, 8, 16]" by simp
  show ?thesis
    using backoff_delay_schedule [of quiet_world "always_fails timeout_error" "[]" "[]" patient_error]
      f q m patient_error_facts upt_0_5
    by simp
qed

section \<open>Recovery on the manager as constructed\<close>

lemma default_lookup_none: "recovery_strategies new_manager (strategy_value s) = None"
  by (cases s) (simp_all add: new_manager_def setup_default_handlers_def)

lemma log_error_strategies: "recovery_strategies (log_error m err) = recovery_strategies m"
  by (simp add: log_error_def Let_def)

lemma created_counts:
  "retry_count (create_error_from_exception e opname args kw tb now) = 0"
  "max_retries (create_error_from_exception e opname args kw tb now) = 3"
  by (simp_all add: create_error_from_exception_def Let_def split: prod.splits)

lemma created_timeout:
  assumes "str_contains ''timeout'' (lower (exc_type e))"
  shows "recoverable (create_error_from_exception e opname args kw tb now)"
    and "recovery_strategy (create_error_from_exception e opname args kw tb now) = RETRY"
  using assms by (simp_all add: create_error_from_exception_def Let_def)

lemma timeout_error_is_timeout: "str_contains ''timeout'' (lower (exc_type timeout_error))"
  unfolding timeout_error_def by code_simp

lemma execute_no_strategy:
  assumes "operation (op_calls w) args kw = Inl e"
    and "\<And>s. recovery_strategies m (strategy_value s) = None"
  shows "execute_with_recovery m operation opname args kw w =
           (Inl e,
            (log_error m (create_error_from_exception e opname args kw (tb_text w) (clock w)))
              \<lparr>error_history :=
                 write_back (create_error_from_exception e opname args kw (tb_text w) (clock w))
                   (error_history (log_error m
                      (create_error_from_exception e opname args kw (tb_text w) (clock w))))\<rparr>,
            w\<lparr>op_calls := Suc (op_calls w)\<rparr>)"
  using assms
  by (simp add: execute_with_recovery_def invoke_def attempt_recovery_def Let_def
        log_error_strategies)

lemma execute_default_reraises:
  assumes "operation (op_calls w) args kw = Inl e"
  shows "fst (execute_with_recovery new_manager operation opname args kw w) = Inl e"
    and "snd (snd (execute_with_recovery new_manager operation opname args kw w))
           = w\<lparr>op_calls := Suc (op_calls w)\<rparr>"
    and "error_history (fst (snd (execute_with_recovery new_manager operation opname args kw w)))
           = [create_error_from_exception e opname args kw (tb_text w) (clock w)]"
  using execute_no_strategy[where operation = operation and w = w and args = args and kw = kw
      and e = e and m = new_manager and opname = opname] assms
  by (simp_all add: default_lookup_none log_error_def Let_def write_back_def
        new_manager_history new_manager_max)

text \<open>
  Claim C1 says that an operation which raises a retry-classified failure once and
  then succeeds has its success value returned. The manager does otherwise: its
  strategies are registered under the names of error kinds (\<open>timeout\<close>, \<open>memory\<close>,
  ...) and looked up under the value of the strategy enum (\<open>retry\<close>, \<open>fallback\<close>,
  ...), so no strategy is ever found. A \<open>TimeoutError\<close>, classified high,
  recoverable, retry, raised by the first invocation of an operation that would
  return 42 on the next, is raised to the caller after that single invocation.
\<close>

theorem fail_once_default_manager_reraises:
  "classification (create_error_from_exception timeout_error ''analyze'' [] [] [] 0)
     = (HIGH, True, RETRY) \<and>
   fst (execute_with_recovery new_manager (fails_once_then timeout_error (PInt 42))
          ''analyze'' [] [] quiet_world) = Inl timeout_error \<and>
   op_calls (snd (snd (execute_with_recovery new_manager (fails_once_then timeout_error (PInt 42))
          ''analyze'' [] [] quiet_world))) = 1"
proof -
  have f: "fails_once_then timeout_error (PInt 42) (op_calls quiet_world) [] [] = Inl timeout_error"
    by (simp add: fails_once_then_def quiet_world_def)
  have c: "classification (create_error_from_exception timeout_error ''analyze'' [] [] [] 0)
             = (HIGH, True, RETRY)"
    using timeout_error_is_timeout
    by (simp add: classification_def create_error_from_exception_def Let_def)
  show ?thesis
    using execute_default_reraises(1,2)[where operation = "fails_once_then timeout_error (PInt 42)"
        and w = quiet_world and args = "[]" and kw = "[]" and e = timeout_error
        and opname = "''analyze''"] f c
    by (simp add: quiet_world_def)
qed

text \<open>
  Claim C2 says that an operation which always fails with a retry-classified
  failure is invoked again exactly \<open>max_retries\<close> times, the retry count going up
  each time. On the manager as constructed the operation is invoked once and never
  again: nothing is slept, the failure is raised to the caller, and the error in
  the history still has retry count 0 of 3.
\<close>

theorem always_failing_default_manager_never_retries:
  "fst (execute_with_recovery new_manager (always_fails timeout_error)
          ''analyze'' [] [] quiet_world) = Inl timeout_error \<and>
   op_calls (snd (snd (execute_with_recovery new_manager (always_fails timeout_error)
          ''analyze'' [] [] quiet_world))) = 1 \<and>
   slept (snd (snd (execute_with_recovery new_manager (always_fails timeout_error)
          ''analyze'' [] [] quiet_world))) = [] \<and>
   map (\<lambda>err. (recovery_strategy err, retry_count err, max_retries err))
     (error_history (fst (snd (execute_with_recovery new_manager (always_fails timeout_error)
          ''analyze'' [] [] quiet_world)))) = [(RETRY, 0, 3)]"
proof -
  have f: "always_fails timeout_error (op_calls quiet_world) [] [] = Inl timeout_error"
    by (simp add: always_fails_def)
  show ?thesis
    using execute_default_reraises[where operation = "always_fails timeout_error"
        and w = quiet_world and args = "[]" and kw = "[]" and e = timeout_error
        and opname = "''analyze''"] f
      created_timeout(2)[OF timeout_error_is_timeout]
    by (simp add: quiet_world_def created_counts)
qed

section \<open>A recovered result of \<^verbatim>\<open>None\<close>\<close>

lemma retry_with_backoff_second_call:
  assumes sr: "should_retry err" and small: "retry_count err < 1024"
    and second: "operation (op_calls w1) args kw = Inr v"
  shows "retry_with_backoff err operation args kw w1 =
           (Inr v, err,
            w1\<lparr>op_calls := Suc (op_calls w1),
               slept := slept w1 @ [min (1 * 2 ^ retry_count err) 30]\<rparr>)"
proof -
  have lt: "retry_count err < max_retries err" using sr by (simp add: should_retry_def)
  then have up: "[retry_count err ..< max_retries err]
                   = retry_count err # [Suc (retry_count err) ..< max_retries err]"
    by (simp add: upt_conv_Cons)
  show ?thesis
    using sr second small
    by (simp add: retry_with_backoff_def up backoff_delay_def capped_delay_def
          invoke_def sleep_def)
qed

lemma execute_retry_registered:
  assumes first: "operation (op_calls w) args kw = Inl e"
    and reg: "recovery_strategies m ''retry'' = Some retry_with_backoff"
    and cls: "str_contains ''timeout'' (lower (exc_type e))"
    and second: "operation (Suc (op_calls w)) args kw = Inr v"
  shows "fst (execute_with_recovery m operation opname args kw w)
           = (if v \<noteq> PNone then Inr v else Inl e)"
    and "snd (snd (execute_with_recovery m operation opname args kw w))
           = w\<lparr>op_calls := Suc (Suc (op_calls w)), slept := slept w @ [1]\<rparr>"
proof -
  let ?err = "create_error_from_exception e opname args kw (tb_text w) (clock w)"
  let ?w1 = "w\<lparr>op_calls := Suc (op_calls w)\<rparr>"
  have sr: "should_retry ?err"
    by (simp add: should_retry_def created_timeout[OF cls] created_counts)
  have second': "operation (op_calls ?w1) args kw = Inr v" using second by simp
  have small: "retry_count ?err < 1024" by (simp add: created_counts)
  have rb: "retry_with_backoff ?err operation args kw ?w1 =
              (Inr v, ?err, w\<lparr>op_calls := Suc (Suc (op_calls w)), slept := slept w @ [1]\<rparr>)"
    using retry_with_backoff_second_call[where err = ?err and operation = operation
        and ?w1.0 = ?w1 and args = args and kw = kw and v = v] sr small second'
    by (simp add: created_counts)
  have ar: "attempt_recovery (log_error m ?err) ?err operation args kw ?w1 =
              (v, ?err, w\<lparr>op_calls := Suc (Suc (op_calls w)), slept := slept w @ [1]\<rparr>)"
    using rb reg
    by (simp add: attempt_recovery_def created_timeout[OF cls] log_error_strategies)
  show "fst (execute_with_recovery m operation opname args kw w)
           = (if v \<noteq> PNone then Inr v else Inl e)"
    using first ar by (simp add: execute_with_recovery_def invoke_def Let_def)
  show "snd (snd (execute_with_recovery m operation opname args kw w))
           = w\<lparr>op_calls := Suc (Suc (op_calls w)), slept := slept w @ [1]\<rparr>"
    using first ar by (simp add: execute_with_recovery_def invoke_def Let_def)
qed

lemma execute_failure_cases:
  assumes first: "operation (op_calls w) args kw = Inl e"
  shows "fst (execute_with_recovery m operation opname args kw w) =
           (let err = create_error_from_exception e opname args kw (tb_text w) (clock w);
                r = fst (attempt_recovery (log_error m err) err operation args kw
                           (w\<lparr>op_calls := Suc (op_calls w)\<rparr>))
            in if r \<noteq> PNone then Inr r else Inl e)"
  using first
  by (simp add: execute_with_recovery_def invoke_def Let_def split: prod.splits)

text \<open>
  Claim C10. When the first invocation of the operation raises, the caller never
  receives \<^verbatim>\<open>None\<close> as a recovered result: a recovery attempt that yields
  \<^verbatim>\<open>None\<close> counts as failed and the original exception is raised. This holds
  for every manager, whatever its strategy table. In particular, on a manager whose
  table does hold the backoff strategy under \<open>retry\<close>, an operation that raises a
  timeout first and returns \<^verbatim>\<open>None\<close> when it is invoked again is invoked twice,
  succeeds the second time, and the caller still gets the original exception.
\<close>

theorem none_result_is_recovery_failure:
  assumes "operation (op_calls w) args kw = Inl e"
  shows "fst (execute_with_recovery m operation opname args kw w) \<noteq> Inr PNone \<and>
    (fst (attempt_recovery
            (log_error m (create_error_from_exception e opname args kw (tb_text w) (clock w)))
            (create_error_from_exception e opname args kw (tb_text w) (clock w))
            operation args kw (w\<lparr>op_calls := Suc (op_calls w)\<rparr>)) = PNone
       \<longrightarrow> fst (execute_with_recovery m operation opname args kw w) = Inl e) \<and>
    (recovery_strategies m ''retry'' = Some retry_with_backoff \<and>
     str_contains ''timeout'' (lower (exc_type e)) \<and>
     operation (Suc (op_calls w)) args kw = Inr PNone
       \<longrightarrow> fst (execute_with_recovery m operation opname args kw w) = Inl e \<and>
           op_calls (snd (snd (execute_with_recovery m operation opname args kw w)))
             = op_calls w + 2)"
proof -
  have c: "fst (execute_with_recovery m operation opname args kw w) =
           (let err = create_error_from_exception e opname args kw (tb_text w) (clock w);
                r = fst (attempt_recovery (log_error m err) err operation args kw
                           (w\<lparr>op_calls := Suc (op_calls w)\<rparr>))
            in if r \<noteq> PNone then Inr r else Inl e)"
    using assms by (rule execute_failure_cases)
  have a: "fst (execute_with_recovery m operation opname args kw w) \<noteq> Inr PNone"
    using c by (simp add: Let_def split: if_splits)
  have b: "fst (attempt_recovery
            (log_error m (create_error_from_exception e opname args kw (tb_text w) (clock w)))
            (create_error_from_exception e opname args kw (tb_text w) (clock w))
            operation args kw (w\<lparr>op_calls := Suc (op_calls w)\<rparr>)) = PNone
       \<longrightarrow> fst (execute_with_recovery m operation opname args kw w) = Inl e"
    using c by (simp add: Let_def)
  have d: "recovery_strategies m ''retry'' = Some retry_with_backoff \<and>
     str_contains ''timeout'' (lower (exc_type e)) \<and>
     operation (Suc (op_calls w)) args kw = Inr PNone
       \<longrightarrow> fst (execute_with_recovery m operation opname args kw w) = Inl e \<and>
           op_calls (snd (snd (execute_with_recovery m operation opname args kw w)))
             = op_calls w + 2"
    using execute_retry_registered[where operation = operation and w = w and args = args
        and kw = kw and e = e and m = m and v = PNone and opname = opname] assms
    by simp
  from a b d show ?thesis by blast
qed

theorem none_result_is_recovery_failure_witness:
  "fails_once_then timeout_error PNone (op_calls quiet_world) [] [] = Inl timeout_error \<and>
   recovery_strategies retry_manager ''retry'' = Some retry_with_backoff \<and>
   str_contains ''timeout'' (lower (exc_type timeout_error)) \<and>
   fails_once_then timeout_error PNone (Suc (op_calls quiet_world)) [] [] = Inr PNone \<and>
   fst (execute_with_recovery retry_manager (fails_once_then timeout_error PNone)
          ''analyze'' [] [] quiet_world) = Inl timeout_error \<and>
   op_calls (snd (snd (execute_with_recovery retry_manager (fails_once_then timeout_error PNone)
          ''analyze'' [] [] quiet_world))) = 2"
proof -
  have f: "fails_once_then timeout_error PNone (op_calls quiet_world) [] [] = Inl timeout_error"
    by (simp add: fails_once_then_def quiet_world_def)
  have g: "fails_once_then timeout_error PNone (Suc (op_calls quiet_world)) [] [] = Inr PNone"
    by (simp add: fails_once_then_def)
  have r: "recovery_strategies retry_manager ''retry'' = Some retry_with_backoff"
    by (simp add: retry_manager_def)
  have q: "op_calls quiet_world = 0" by (simp add: quiet_world_def)
  show ?thesis
    using none_result_is_recovery_failure[where operation = "fails_once_then timeout_error PNone"
        and w = quiet_world and args = "[]" and kw = "[]" and e = timeout_error
        and m = retry_manager and opname = "''analyze''"]
      f g r q timeout_error_is_timeout
    by simp
qed

text \<open>
  For contrast: with the backoff strategy registered under \<open>retry\<close>, a value other
  than \<^verbatim>\<open>None\<close> returned by the second invocation does reach the caller.
\<close>

lemma registered_retry_recovers:
  "fst (execute_with_recovery retry_manager (fails_once_then timeout_error (PInt 42))
          ''analyze'' [] [] quiet_world) = Inr (PInt 42)"
proof -
  have f: "fails_once_then timeout_error (PInt 42) (op_calls quiet_world) [] [] = Inl timeout_error"
    by (simp add: fails_once_then_def quiet_world_def)
  have g: "fails_once_then timeout_error (PInt 42) (Suc (op_calls quiet_world)) [] [] = Inr (PInt 42)"
    by (simp add: fails_once_then_def)
  have r: "recovery_strategies retry_manager ''retry'' = Some retry_with_backoff"
    by (simp add: retry_manager_def)
  show ?thesis
    using execute_retry_registered(1)[where operation = "fails_once_then timeout_error (PInt 42)"
        and w = quiet_world and args = "[]" and kw = "[]" and e = timeout_error
        and m = retry_manager and v = "PInt 42" and opname = "''analyze''"]
      f g r timeout_error_is_timeout
    by simp
qed

section \<open>Which region is primary\<close>

text \<open>
  Claim C5 reads: the current region is primary if and only if replication is
  disabled, or no primary is configured, or the current region is the configured
  primary. The code does not consult the replication flag. With regions enabled,
  replication disabled, primary \<open>us\<close> and current region \<open>eu\<close>, the claim's right-hand
  side holds and \<^verbatim>\<open>is_current_region_primary\<close> returns false.
\<close>

theorem primary_not_replication_flag_counterexample:
  "\<not> (is_current_region_primary (new_region_manager secondary_config) \<longleftrightarrow>
        (\<not> replication_enabled secondary_config \<or>
         primary_region secondary_config = None \<or>
         Some (current_region secondary_config) = primary_region secondary_config))"
  by (simp add: is_current_region_primary_def new_region_manager_def secondary_config_def)

text \<open>
  Claim C5 as amended: the current region is primary if and only if multi-region
  support is disabled (the flag \<^verbatim>\<open>region_config.enabled\<close>), or no primary is
  configured, or the current region is the configured primary.
\<close>

theorem primary_iff_regions_disabled_or_configured:
  "is_current_region_primary m \<longleftrightarrow>
     (\<not> enabled (region_config m) \<or>
      primary_region (region_config m) = None \<or>
      Some (current_region (region_config m)) = primary_region (region_config m))"
  by (simp add: is_current_region_primary_def)

theorem primary_iff_regions_disabled_or_configured_witness:
  "enabled (region_config (new_region_manager primary_config)) \<and>
   primary_region (region_config (new_region_manager primary_config)) \<noteq> None \<and>
   is_current_region_primary (new_region_manager primary_config) \<and>
   enabled (region_config (new_region_manager secondary_config)) \<and>
   \<not> is_current_region_primary (new_region_manager secondary_config)"
  using primary_iff_regions_disabled_or_configured [of "new_region_manager primary_config"]
    primary_iff_regions_disabled_or_configured [of "new_region_manager secondary_config"]
  by (simp add: new_region_manager_def primary_config_def secondary_config_def)

section \<open>Choosing the best region\<close>

lemma py_min_by_snoc:
  "py_min_by key b (xs @ [x]) =
     (if key x < key (py_min_by key b xs) then x else py_min_by key b xs)"
  by (induction xs arbitrary: b) simp_all

text \<open>
  What \<^verbatim>\<open>min(items, key=...)\<close> returns: an item with the least key, and the
  first one among those.
\<close>

lemma py_min_by_first_minimum:
  "\<exists>i<length (b # xs).
      py_min_by key b xs = (b # xs) ! i \<and>
      (\<forall>j<length (b # xs). key ((b # xs) ! i) \<le> key ((b # xs) ! j)) \<and>
      (\<forall>j<i. key ((b # xs) ! i) < key ((b # xs) ! j))"
proof (induction xs rule: rev_induct)
  case Nil
  then show ?case by simp
next
  case (snoc x xs)
  define ys where "ys = b # xs"
  define r where "r = py_min_by key b xs"
  from snoc obtain i where i: "i < length ys" and ri: "r = ys ! i"
    and mn: "\<forall>j<length ys. key (ys ! i) \<le> key (ys ! j)"
    and fs: "\<forall>j<i. key (ys ! i) < key (ys ! j)"
    unfolding ys_def r_def by blast
  have app: "b # xs @ [x] = ys @ [x]" by (simp add: ys_def)
  have old: "\<And>j. j < length ys \<Longrightarrow> (ys @ [x]) ! j = ys ! j" by (simp add: nth_append)
  have new: "(ys @ [x]) ! length ys = x" by (simp only: nth_append_length)
  have len: "length (ys @ [x]) = Suc (length ys)" by simp
  have step: "py_min_by key b (xs @ [x]) = (if key x < key r then x else r)"
    by (simp add: py_min_by_snoc r_def)
  show ?case
  proof (cases "key x < key r")
    case True
    have a: "\<forall>j<length (ys @ [x]). key ((ys @ [x]) ! length ys) \<le> key ((ys @ [x]) ! j)"
    proof (intro allI impI)
      fix j assume "j < length (ys @ [x])"
      then consider "j < length ys" | "j = length ys" using len by linarith
      then show "key ((ys @ [x]) ! length ys) \<le> key ((ys @ [x]) ! j)"
      proof cases
        case 1
        then have "key r \<le> key (ys ! j)" using mn ri by simp
        with True 1 show ?thesis by (simp add: old new)
      next
        case 2
        then show ?thesis by simp
      qed
    qed
    have c: "\<forall>j<length ys. key ((ys @ [x]) ! length ys) < key ((ys @ [x]) ! j)"
    proof (intro allI impI)
      fix j assume j: "j < length ys"
      then have "key r \<le> key (ys ! j)" using mn ri by simp
      with True j show "key ((ys @ [x]) ! length ys) < key ((ys @ [x]) ! j)"
        by (simp add: old new)
    qed
    have "length ys < length (ys @ [x]) \<and>
          py_min_by key b (xs @ [x]) = (ys @ [x]) ! length ys \<and>
          (\<forall>j<length (ys @ [x]). key ((ys @ [x]) ! length ys) \<le> key ((ys @ [x]) ! j)) \<and>
          (\<forall>j<length ys. key ((ys @ [x]) ! length ys) < key ((ys @ [x]) ! j))"
      using True step a c new by simp
    then show ?thesis unfolding app by blast
  next
    case False
    have ii: "(ys @ [x]) ! i = ys ! i" using i by (rule old)
    have a: "\<forall>j<length (ys @ [x]). key ((ys @ [x]) ! i) \<le> key ((ys @ [x]) ! j)"
    proof (intro allI impI)
      fix j assume "j < length (ys @ [x])"
      then consider "j < length ys" | "j = length ys" using len by linarith
      then show "key ((ys @ [x]) ! i) \<le> key ((ys @ [x]) ! j)"
      proof cases
        case 1
        then show ?thesis using mn by (simp add: old ii)
      next
        case 2
        then show ?thesis using False ri by (simp add: new ii)
      qed
    qed
    have c: "\<forall>j<i. key ((ys @ [x]) ! i) < key ((ys @ [x]) ! j)"
    proof (intro allI impI)
      fix j assume j: "j < i"
      then have "j < length ys" using i by simp
      then show "key ((ys @ [x]) ! i) < key ((ys @ [x]) ! j)" using fs j by (simp add: old ii)
    qed
    have "i < length (ys @ [x]) \<and>
          py_min_by key b (xs @ [x]) = (ys @ [x]) ! i \<and>
          (\<forall>j<length (ys @ [x]). key ((ys @ [x]) ! i) \<le> key ((ys @ [x]) ! j)) \<and>
          (\<forall>j<i. key ((ys @ [x]) ! i) < key ((ys @ [x]) ! j))"
      using False step a c ii ri i by simp
    then show ?thesis unfolding app by blast
  qed
qed

text \<open>
  The constructor leaves the region map empty when multi-region support is
  disabled, and neither \<^verbatim>\<open>initialize\<close> nor a health check adds a region.
\<close>

lemma new_region_manager_invariant: "regions_only_if_enabled (new_region_manager cfg)"
  by (simp add: regions_only_if_enabled_def new_region_manager_def initialize_regions_def)

lemma initialize_invariant:
  "regions_only_if_enabled m \<Longrightarrow> regions_only_if_enabled (initialize m)"
  by (auto simp: regions_only_if_enabled_def initialize_def)

lemma check_region_health_config:
  "region_config (fst (snd (check_region_health m rname n))) = region_config m"
  by (simp add: check_region_health_def Let_def
           split: option.splits prod.splits sum.splits)

lemma check_region_health_unknown:
  "map_of (regions m) rname = None \<Longrightarrow> check_region_health m rname n = (False, m, n)"
  by (simp add: check_region_health_def split: option.splits)

lemma check_region_health_invariant:
  assumes "regions_only_if_enabled m"
  shows "regions_only_if_enabled (fst (snd (check_region_health m rname n)))"
proof (cases "regions m = []")
  case True
  then have "check_region_health m rname n = (False, m, n)"
    by (simp add: check_region_health_unknown)
  with assms show ?thesis by simp
next
  case False
  with assms have "enabled (region_config m)" by (simp add: regions_only_if_enabled_def)
  then show ?thesis
    by (simp add: regions_only_if_enabled_def check_region_health_config)
qed

lemma healthy_regions_set:
  "(r, l) \<in> set (healthy_regions m) \<longleftrightarrow>
     (\<exists>s. (r, s) \<in> set (regions m) \<and> healthy s \<and> latency_ms s = l)"
  by (auto simp: healthy_regions_def)

text \<open>
  Claim C6. On every manager the constructor and the health checks can produce
  (one whose region map is empty when multi-region support is disabled),
  \<^verbatim>\<open>get_best_region\<close> returns the configured current region when no region is
  healthy; otherwise it returns a healthy region whose latency no other healthy
  region undercuts, and of several with that latency the first in the iteration
  order of the region map. The candidates are exactly the regions whose status has
  \<open>healthy\<close> set, each with its recorded latency. Being a total function into
  region names, it always returns some target.
\<close>

theorem get_best_region_lowest_latency:
  assumes "regions_only_if_enabled m"
  shows "(healthy_regions m = [] \<longrightarrow> get_best_region m = current_region (region_config m)) \<and>
    (healthy_regions m \<noteq> [] \<longrightarrow>
       (\<exists>i<length (healthy_regions m).
          get_best_region m = fst (healthy_regions m ! i) \<and>
          (\<forall>j<length (healthy_regions m).
             snd (healthy_regions m ! i) \<le> snd (healthy_regions m ! j)) \<and>
          (\<forall>j<i. snd (healthy_regions m ! i) < snd (healthy_regions m ! j)))) \<and>
    (\<forall>r l. (r, l) \<in> set (healthy_regions m) \<longleftrightarrow>
       (\<exists>s. (r, s) \<in> set (regions m) \<and> healthy s \<and> latency_ms s = l))"
proof -
  have a: "healthy_regions m = [] \<longrightarrow> get_best_region m = current_region (region_config m)"
    by (simp add: get_best_region_def)
  have b: "healthy_regions m \<noteq> [] \<longrightarrow>
       (\<exists>i<length (healthy_regions m).
          get_best_region m = fst (healthy_regions m ! i) \<and>
          (\<forall>j<length (healthy_regions m).
             snd (healthy_regions m ! i) \<le> snd (healthy_regions m ! j)) \<and>
          (\<forall>j<i. snd (healthy_regions m ! i) < snd (healthy_regions m ! j)))"
  proof
    assume ne: "healthy_regions m \<noteq> []"
    then obtain first others where hs: "healthy_regions m = first # others"
      by (cases "healthy_regions m") auto
    have "regions m \<noteq> []" using ne by (auto simp: healthy_regions_def)
    then have en: "enabled (region_config m)"
      using assms by (simp add: regions_only_if_enabled_def)
    have g: "get_best_region m = fst (py_min_by snd first others)"
      using en hs by (simp add: get_best_region_def)
    from py_min_by_first_minimum[of first others snd]
    obtain i where i: "i < length (first # others)"
      "py_min_by snd first others = (first # others) ! i"
      "\<forall>j<length (first # others). snd ((first # others) ! i) \<le> snd ((first # others) ! j)"
      "\<forall>j<i. snd ((first # others) ! i) < snd ((first # others) ! j)"
      by blast
    have "i < length (healthy_regions m) \<and>
          get_best_region m = fst (healthy_regions m ! i) \<and>
          (\<forall>j<length (healthy_regions m).
             snd (healthy_regions m ! i) \<le> snd (healthy_regions m ! j)) \<and>
          (\<forall>j<i. snd (healthy_regions m ! i) < snd (healthy_regions m ! j))"
      unfolding hs g using i by simp
    then show "\<exists>i<length (healthy_regions m).
          get_best_region m = fst (healthy_regions m ! i) \<and>
          (\<forall>j<length (healthy_regions m).
             snd (healthy_regions m ! i) \<le> snd (healthy_regions m ! j)) \<and>
          (\<forall>j<i. snd (healthy_regions m ! i) < snd (healthy_regions m ! j))"
      by (rule exI[of _ i])
  qed
  have c: "\<forall>r l. (r, l) \<in> set (healthy_regions m) \<longleftrightarrow>
       (\<exists>s. (r, s) \<in> set (regions m) \<and> healthy s \<and> latency_ms s = l)"
    by (simp add: healthy_regions_set)
  from a b c show ?thesis by blast
qed

lemma healthy_three_regions: "healthy_regions three_regions = [(''A'', 50), (''B'', 10)]"
  by (simp add: healthy_regions_def three_regions_def)

lemma healthy_no_healthy_regions: "healthy_regions no_healthy_regions = []"
  by (simp add: healthy_regions_def no_healthy_regions_def initialize_def new_region_manager_def
        initialize_regions_def secondary_config_def)

theorem get_best_region_lowest_latency_witness:
  "regions_only_if_enabled three_regions \<and>
   healthy_regions three_regions = [(''A'', 50), (''B'', 10)] \<and>
   get_best_region three_regions = ''B'' \<and>
   regions_only_if_enabled no_healthy_regions \<and>
   healthy_regions no_healthy_regions = [] \<and>
   get_best_region no_healthy_regions = ''eu''"
proof -
  have w1: "regions_only_if_enabled three_regions"
    by (simp add: regions_only_if_enabled_def three_regions_def secondary_config_def)
  have w2: "regions_only_if_enabled no_healthy_regions"
    unfolding no_healthy_regions_def
    by (intro initialize_invariant new_region_manager_invariant)
  have cur: "current_region (region_config no_healthy_regions) = ''eu''"
    by (simp add: no_healthy_regions_def initialize_def new_region_manager_def secondary_config_def)
  have en: "enabled (region_config three_regions)"
    by (simp add: three_regions_def secondary_config_def)
  have b: "get_best_region three_regions = ''B''"
    by (simp add: get_best_region_def healthy_three_regions en)
  have e: "get_best_region no_healthy_regions = ''eu''"
    using conjunct1 [OF get_best_region_lowest_latency [OF w2]] healthy_no_healthy_regions cur
    by simp
  show ?thesis
    using w1 healthy_three_regions b w2 healthy_no_healthy_regions e by simp
qed

section \<open>Health checks\<close>

text \<open>
  The three outcomes of a probe on a manager with an open session and a configured
  region. One GET request goes to the region's URL followed by \<open>/health\<close>. Status
  200 marks the region healthy, stores the latency and the time of the check and
  clears the error. An exception marks it unhealthy and stores the latency and the
  exception's text. Any other status marks it unhealthy and stores \<open>HTTP\<close> and
  the status as the error, and nothing else: the latency field keeps its old value.
\<close>

lemma check_region_health_outcomes:
  assumes s: "session m = Some s" and st: "map_of (regions m) rname = Some st"
    and latency: "latency = (loop_time n (Suc (loop_reads n)) - loop_time n (loop_reads n)) * 1000"
    and answer: "answer = http_get n (length (requests n)) (url st @ ''/health'')"
    and res: "res = check_region_health m rname n"
  shows "requests (snd (snd res)) = requests n @ [url st @ ''/health'']"
    and "answer = Inr 200 \<Longrightarrow>
           fst res \<and>
           map_of (regions (fst (snd res))) rname =
             Some (st\<lparr>healthy := True, latency_ms := latency,
                       last_check := Some (utcnow n), error := None\<rparr>)"
    and "answer = Inr status \<Longrightarrow> status \<noteq> 200 \<Longrightarrow>
           \<not> fst res \<and>
           map_of (regions (fst (snd res))) rname =
             Some (st\<lparr>healthy := False, error := Some (''HTTP '' @ str_of_nat status)\<rparr>)"
    and "answer = Inl e \<Longrightarrow>
           \<not> fst res \<and>
           map_of (regions (fst (snd res))) rname =
             Some (st\<lparr>healthy := False, latency_ms := latency, error := Some (exc_str e)\<rparr>)"
  using s st latency answer res
  by (simp_all add: check_region_health_def read_loop_time_def session_get_def Let_def
        update_conv' split: sum.splits)

lemma eu_status:
  "map_of (regions no_healthy_regions) ''eu'' =
     Some \<lparr>region = ''eu'', url = ''https://ghidrainsight-eu.example.com'', healthy = False,
           latency_ms = 0, last_check = None, error = None\<rparr>"
  by (simp add: no_healthy_regions_def initialize_def new_region_manager_def
        initialize_regions_def secondary_config_def get_region_url_def)

lemma eu_session: "session no_healthy_regions = Some \<lparr>timeout_total = 30\<rparr>"
  by (simp add: no_healthy_regions_def initialize_def new_region_manager_def secondary_config_def)

lemma str_of_503: "str_of_nat 503 = ''503''"
  by code_simp

text \<open>
  Claim C4 says that a health check records the measured latency in the region's
  status whatever the outcome of the probe. For an answer other than 200 the code
  does not: a probe of region \<open>eu\<close> that is answered 503 after 250 ms sends its one
  request, marks the region unhealthy with the error \<open>HTTP 503\<close>, and leaves
  \<open>latency_ms\<close> at the 0 it had before.
\<close>

theorem non_200_probe_drops_latency:
  "(loop_time (net_answering (Inr 503)) 1 - loop_time (net_answering (Inr 503)) 0) * 1000 = 250 \<and>
   requests (snd (snd (check_region_health no_healthy_regions ''eu'' (net_answering (Inr 503)))))
     = [''https://ghidrainsight-eu.example.com/health''] \<and>
   \<not> fst (check_region_health no_healthy_regions ''eu'' (net_answering (Inr 503))) \<and>
   map_of (regions (fst (snd (check_region_health no_healthy_regions ''eu''
                                (net_answering (Inr 503)))))) ''eu'' =
     Some \<lparr>region = ''eu'', url = ''https://ghidrainsight-eu.example.com'', healthy = False,
           latency_ms = 0, last_check = None, error = Some ''HTTP 503''\<rparr>"
proof -
  have a: "http_get (net_answering (Inr 503)) (length (requests (net_answering (Inr 503))))
             (url \<lparr>region = ''eu'', url = ''https://ghidrainsight-eu.example.com'',
                   healthy = False, latency_ms = 0, last_check = None, error = None\<rparr>
              @ ''/health'') = Inr 503"
    by (simp add: net_answering_def)
  have l: "(loop_time (net_answering (Inr 503)) 1 - loop_time (net_answering (Inr 503)) 0) * 1000 = 250"
    by (simp add: net_answering_def)
  have r: "requests (net_answering (Inr 503)) = []" by (simp add: net_answering_def)
  show ?thesis
    using check_region_health_outcomes(1)[OF eu_session eu_status refl refl refl,
            of "net_answering (Inr 503)"]
      check_region_health_outcomes(3)[OF eu_session eu_status refl refl refl a]
      l r
    by (simp add: str_of_503)
qed

section \<open>Feature-mode dispatch tolerates failing features\<close>

text \<open>
  One round of the loop stores the entry for the feature and goes on, whether the
  engine returned or raised.
\<close>

lemma feature_loop_step:
  "feature_loop eng binary_data (feature # rest) results trace =
     feature_loop eng binary_data rest
       (AList.update feature (feature_entry (eng (length trace) feature binary_data)) results)
       (trace @ [(feature, binary_data)])"
  by (simp add: feature_entry_def split: sum.splits)

lemma feature_loop_trace:
  "snd (feature_loop eng binary_data features results trace) =
     trace @ map (\<lambda>f. (f, binary_data)) features"
proof (induction features arbitrary: results trace)
  case Nil
  then show ?case by simp
next
  case (Cons f rest)
  show ?case by (simp only: feature_loop_step Cons.IH) simp
qed

lemma feature_loop_other:
  "k \<notin> set features \<Longrightarrow>
     map_of (fst (feature_loop eng binary_data features results trace)) k = map_of results k"
proof (induction features arbitrary: results trace)
  case Nil
  then show ?case by simp
next
  case (Cons f rest)
  then have "k \<noteq> f" "k \<notin> set rest" by auto
  then show ?case
    by (simp add: feature_loop_step Cons.IH update_conv' del: feature_loop.simps)
qed

lemma feature_loop_last_occurrence:
  assumes "i < length features"
    and "\<forall>j<length features. i < j \<longrightarrow> features ! j \<noteq> features ! i"
  shows "map_of (fst (feature_loop eng binary_data features results trace)) (features ! i) =
           Some (feature_entry (eng (length trace + i) (features ! i) binary_data))"
  using assms
proof (induction features arbitrary: results trace i)
  case Nil
  then show ?case by simp
next
  case (Cons f rest)
  show ?case
  proof (cases i)
    case 0
    have "f \<notin> set rest"
    proof
      assume "f \<in> set rest"
      then obtain j where "j < length rest" "rest ! j = f" by (auto simp: in_set_conv_nth)
      then have "Suc j < length (f # rest)" "(f # rest) ! Suc j = (f # rest) ! 0" by simp_all
      with Cons.prems(2) 0 show False by (metis zero_less_Suc)
    qed
    then have "map_of (fst (feature_loop eng binary_data (f # rest) results trace)) f =
                 map_of (AList.update f (feature_entry (eng (length trace) f binary_data)) results) f"
      by (simp add: feature_loop_step feature_loop_other del: feature_loop.simps)
    then show ?thesis using 0 by (simp add: update_conv')
  next
    case (Suc i')
    have i': "i' < length rest" using Cons.prems(1) Suc by simp
    have later: "\<forall>j<length rest. i' < j \<longrightarrow> rest ! j \<noteq> rest ! i'"
    proof (intro allI impI)
      fix j assume j: "j < length rest" "i' < j"
      then have "Suc j < length (f # rest)" "i < Suc j" using Suc by simp_all
      with Cons.prems(2) have "(f # rest) ! Suc j \<noteq> (f # rest) ! i" by blast
      then show "rest ! j \<noteq> rest ! i'" using Suc by simp
    qed
    have "map_of (fst (feature_loop eng binary_data rest
             (AList.update f (feature_entry (eng (length trace) f binary_data)) results)
             (trace @ [(f, binary_data)]))) (rest ! i') =
           Some (feature_entry (eng (length (trace @ [(f, binary_data)]) + i') (rest ! i') binary_data))"
      by (rule Cons.IH[OF i' later])
    then show ?thesis using Suc by (simp only: feature_loop_step) simp
  qed
qed

lemma feature_loop_keys:
  "fst ` set (fst (feature_loop eng binary_data features results trace)) =
     fst ` set results \<union> set features"
proof (induction features arbitrary: results trace)
  case Nil
  then show ?case by simp
next
  case (Cons f rest)
  show ?case by (simp only: feature_loop_step Cons.IH) (auto simp: dom_update image_iff)
qed

text \<open>
  Claim C7. For every engine, payload and feature list, feature-mode dispatch calls
  the engine once for each listed feature, in order, on the whole payload. The
  dictionary of results has exactly the listed features as keys; under each it
  holds what the engine returned for that feature or, when the engine raised, the
  record \<open>{"error": text}\<close> (for a feature listed more than once, the outcome of its
  last call), so a feature that fails changes nothing for the others. The envelope
  carries \<open>success = True\<close> whichever features failed, with the feature list and the
  size of the payload. No failure of the engine produces \<open>success = False\<close>: that
  envelope is built only in the outer handler, for an exception raised outside the
  inner \<^verbatim>\<open>try\<close>, which a list of strings and a byte string never cause.
\<close>

theorem feature_failures_are_isolated:
  "snd (analyze_binary_parallel eng binary_data features)
     = map (\<lambda>f. (f, binary_data)) features \<and>
   py_get (fst (analyze_binary_parallel eng binary_data features)) ''success''
     = Some (PBool True) \<and>
   py_get (fst (analyze_binary_parallel eng binary_data features)) ''features_analyzed''
     = Some (PList (map PStr features)) \<and>
   py_get (fst (analyze_binary_parallel eng binary_data features)) ''binary_size''
     = Some (PInt (int (length binary_data))) \<and>
   (\<exists>results.
      py_get (fst (analyze_binary_parallel eng binary_data features)) ''results''
        = Some (PDict results) \<and>
      fst ` set results = set features \<and>
      (\<forall>i<length features.
         (\<forall>j<length features. i < j \<longrightarrow> features ! j \<noteq> features ! i) \<longrightarrow>
         map_of results (features ! i)
           = Some (feature_entry (eng i (features ! i) binary_data))))"
proof -
  obtain results trace where loop: "feature_loop eng binary_data features [] [] = (results, trace)"
    by (cases "feature_loop eng binary_data features [] []") auto
  have env: "analyze_binary_parallel eng binary_data features =
          (PDict [(''features_analyzed'', PList (map PStr features)),
                  (''results'', PDict results),
                  (''success'', PBool True),
                  (''binary_size'', PInt (int (length binary_data)))], trace)"
    by (simp add: analyze_binary_parallel_def loop)
  have tr: "trace = map (\<lambda>f. (f, binary_data)) features"
    using feature_loop_trace[of eng binary_data features "[]" "[]"] by (simp add: loop)
  have keys: "fst ` set results = set features"
    using feature_loop_keys[of eng binary_data features "[]" "[]"] by (simp add: loop)
  have entries: "\<forall>i<length features.
         (\<forall>j<length features. i < j \<longrightarrow> features ! j \<noteq> features ! i) \<longrightarrow>
         map_of results (features ! i)
           = Some (feature_entry (eng i (features ! i) binary_data))"
  proof (intro allI impI)
    fix i assume i: "i < length features"
      and l: "\<forall>j<length features. i < j \<longrightarrow> features ! j \<noteq> features ! i"
    show "map_of results (features ! i) = Some (feature_entry (eng i (features ! i) binary_data))"
      using feature_loop_last_occurrence[OF i l, of eng binary_data "[]" "[]"]
      by (simp add: loop)
  qed
  show ?thesis
    unfolding env using tr keys entries by simp
qed

theorem feature_failures_are_isolated_witness:
  "(1::nat) < length [''a'', ''b''] \<and>
   raises_on_b 1 ([''a'', ''b''] ! 1) [1, 2, 3] = Inl (PyExc ''ValueError'' ''bad feature'') \<and>
   analyze_binary_parallel raises_on_b [1, 2, 3] [''a'', ''b''] =
     (PDict [(''features_analyzed'', PList [PStr ''a'', PStr ''b'']),
             (''results'', PDict [(''a'', PStr ''ok''),
                                  (''b'', PDict [(''error'', PStr ''bad feature'')])]),
             (''success'', PBool True),
             (''binary_size'', PInt 3)],
      [(''a'', [1, 2, 3]), (''b'', [1, 2, 3])])"
proof -
  have e: "analyze_binary_parallel raises_on_b [1, 2, 3] [''a'', ''b''] =
     (PDict [(''features_analyzed'', PList [PStr ''a'', PStr ''b'']),
             (''results'', PDict [(''a'', PStr ''ok''),
                                  (''b'', PDict [(''error'', PStr ''bad feature'')])]),
             (''success'', PBool True),
             (''binary_size'', PInt 3)],
      [(''a'', [1, 2, 3]), (''b'', [1, 2, 3])])"
    by (simp add: analyze_binary_parallel_def raises_on_b_def)
  have s: "py_get (fst (analyze_binary_parallel raises_on_b [1, 2, 3] [''a'', ''b''])) ''success''
             = Some (PBool True)"
    using feature_failures_are_isolated [of raises_on_b "[1, 2, 3]" "[''a'', ''b'']"] by blast
  show ?thesis using e s by (simp add: raises_on_b_def)
qed

end
